theory Spec2Isabelle
  imports Complex_Main "HOL-Library.Word" "HOL-Library.Signed_Division" "HOL-Library.Sublist"
begin

section \<open>Go values used by the resolvers of main.go\<close>

text \<open>
  Go's \<open>int\<close> is a 64-bit two's complement integer on the platforms the plugin is built
  for: \<open>+\<close>, \<open>-\<close> and \<open>*\<close> wrap around silently, comparisons are signed, \<open>/\<close>
  truncates towards zero and panics on a zero divisor. A slice expression \<open>s[low:high]\<close>
  panics unless \<open>0 \<le> low \<le> high \<le> cap(s)\<close>. A panic is a value of the model.
\<close>

type_synonym go_int = "64 word"

datatype panic = DivideByZero | SliceBoundsOutOfRange

definition go_len :: "'a list \<Rightarrow> go_int" where
  "go_len xs = of_nat (length xs)"

definition go_quot :: "go_int \<Rightarrow> go_int \<Rightarrow> panic + go_int" where
  "go_quot a b =
     (if b = 0 then Inl DivideByZero else Inr (word_of_int (sint a sdiv sint b)))"

text \<open>
  Both slice expressions of the resolvers are reached with \<open>high\<close> already lowered to at
  most \<open>len(s)\<close>, so the bound checked here is the length.
\<close>

definition slice :: "'a list \<Rightarrow> go_int \<Rightarrow> go_int \<Rightarrow> panic + 'a list" where
  "slice s low high =
     (if 0 \<le> sint low \<and> sint low \<le> sint high \<and> sint high \<le> int (length s)
      then Inr (take (nat (sint high) - nat (sint low)) (drop (nat (sint low)) s))
      else Inl SliceBoundsOutOfRange)"

subsection \<open>The verb \<open>%d\<close> of fmt.Sprintf\<close>

definition digit_char :: "nat \<Rightarrow> char" where
  "digit_char d = char_of (48 + d)"

fun fmt_nat :: "nat \<Rightarrow> string" where
  "fmt_nat n = (if n < 10 then [digit_char n] else fmt_nat (n div 10) @ [digit_char (n mod 10)])"

declare fmt_nat.simps [simp del]

definition fmt_d :: "int \<Rightarrow> string" where
  "fmt_d i = (if i < 0 then CHR ''-'' # fmt_nat (nat (- i)) else fmt_nat (nat i))"

text \<open>
  The verb \<open>%.2f\<close> on the prices of the sample products. Each price is a literal with two
  decimals; it is held as a number of hundredths, which \<open>%.2f\<close> prints back as written.
\<close>

definition fmt_2f :: "nat \<Rightarrow> string" where
  "fmt_2f h = fmt_nat (h div 100) @ ''.'' @ [digit_char (h mod 100 div 10), digit_char (h mod 10)]"

section \<open>Records of the sample data\<close>

record address =
  addr_street :: string
  addr_city :: string
  addr_state :: string
  addr_zip :: string

record tag =
  tag_key :: string
  tag_val :: string

text \<open>
  A user is a \<open>map[string]interface{}\<close>. The sample users carry the keys \<open>address\<close> and
  \<open>tags\<close>; the user built by createUser does not, hence the options.
\<close>

record user =
  user_id :: string
  user_name :: string
  user_email :: string
  user_username :: string
  user_address :: "address option"
  user_tags :: "tag list option"
  user_active :: bool
  user_createdAt :: string

record product =
  product_id :: string
  product_name :: string
  product_description :: string
  product_price :: nat
  product_stock :: go_int
  product_tags :: "string list"
  product_categories :: "string list"

section \<open>getUsersResolver\<close>

text \<open>
  The sample users (lines 347-402). \<open>stamp h\<close> stands for
  \<open>time.Now().Add(h * time.Hour).Format(time.RFC3339)\<close>.
\<close>

definition users :: "(int \<Rightarrow> string) \<Rightarrow> user list" where
  "users stamp =
     [\<lparr>user_id = ''1'', user_name = ''John Doe'', user_email = ''john.doe@example.com'',
       user_username = ''johndoe'',
       user_address = Some \<lparr>addr_street = ''123 Main St'', addr_city = ''New York'',
                             addr_state = ''NY'', addr_zip = ''10001''\<rparr>,
       user_tags = Some [\<lparr>tag_key = ''department'', tag_val = ''engineering''\<rparr>,
                         \<lparr>tag_key = ''level'', tag_val = ''senior''\<rparr>],
       user_active = True, user_createdAt = stamp (- 24)\<rparr>,
      \<lparr>user_id = ''2'', user_name = ''Jane Smith'', user_email = ''jane.smith@example.com'',
       user_username = ''janesmith'',
       user_address = Some \<lparr>addr_street = ''456 Oak Ave'', addr_city = ''Los Angeles'',
                             addr_state = ''CA'', addr_zip = ''90210''\<rparr>,
       user_tags = Some [\<lparr>tag_key = ''department'', tag_val = ''design''\<rparr>,
                         \<lparr>tag_key = ''level'', tag_val = ''mid''\<rparr>],
       user_active = False, user_createdAt = stamp (- 48)\<rparr>,
      \<lparr>user_id = ''3'', user_name = ''Bob Johnson'', user_email = ''bob.johnson@example.com'',
       user_username = ''bobjohnson'',
       user_address = Some \<lparr>addr_street = ''789 Pine Rd'', addr_city = ''Chicago'',
                             addr_state = ''IL'', addr_zip = ''60601''\<rparr>,
       user_tags = Some [\<lparr>tag_key = ''department'', tag_val = ''marketing''\<rparr>,
                         \<lparr>tag_key = ''level'', tag_val = ''junior''\<rparr>],
       user_active = True, user_createdAt = stamp (- 72)\<rparr>]"

text \<open>
  The active filter (lines 404-411): the loop appends every user whose \<open>active\<close> field
  equals the argument to \<open>filteredUsers\<close>, which starts empty.
\<close>

fun activeLoop :: "bool \<Rightarrow> user list \<Rightarrow> user list \<Rightarrow> user list" where
  "activeLoop activeFilter [] filteredUsers = filteredUsers"
| "activeLoop activeFilter (u # rest) filteredUsers =
     activeLoop activeFilter rest
       (if user_active u = activeFilter then filteredUsers @ [u] else filteredUsers)"

definition filterActive :: "bool \<Rightarrow> user list \<Rightarrow> user list" where
  "filterActive activeFilter us = activeLoop activeFilter us []"

text \<open>
  The offset/limit window (lines 413-423): \<open>start\<close> and \<open>end\<close> are lowered to the length
  when they exceed it, then the slice expression is evaluated.
\<close>

definition offsetLimit :: "'a list \<Rightarrow> go_int \<Rightarrow> go_int \<Rightarrow> panic + 'a list" where
  "offsetLimit filteredUsers offset limit =
     (let start = offset;
          end' = offset + limit;
          start = (if sint (go_len filteredUsers) < sint start then go_len filteredUsers else start);
          end' = (if sint (go_len filteredUsers) < sint end' then go_len filteredUsers else end')
      in slice filteredUsers start end')"

definition getUsersResolver ::
  "(int \<Rightarrow> string) \<Rightarrow> go_int \<Rightarrow> go_int \<Rightarrow> bool \<Rightarrow> panic + user list" where
  "getUsersResolver stamp limit offset activeFilter =
     offsetLimit (filterActive activeFilter (users stamp)) offset limit"

section \<open>getProductsPaginatedResolver\<close>

definition allProducts :: "product list" where
  "allProducts =
     [\<lparr>product_id = ''1'', product_name = ''Laptop'',
       product_description = ''High-performance laptop'', product_price = 99999,
       product_stock = 10, product_tags = [''electronics'', ''computers''],
       product_categories = [''electronics'', ''office'']\<rparr>,
      \<lparr>product_id = ''2'', product_name = ''Coffee Mug'',
       product_description = ''Ceramic coffee mug'', product_price = 1299,
       product_stock = 50, product_tags = [''kitchen'', ''drinkware''],
       product_categories = [''home'', ''kitchen'']\<rparr>,
      \<lparr>product_id = ''3'', product_name = ''Book'',
       product_description = ''Programming book'', product_price = 2999,
       product_stock = 25, product_tags = [''education'', ''programming''],
       product_categories = [''books'', ''education'']\<rparr>]"

text \<open>
  The category filter (lines 480-495). The inner loop stops at the first category equal to
  the argument; the outer loop appends the product when the inner loop found one.
\<close>

fun categoryMatch :: "string \<Rightarrow> string list \<Rightarrow> bool" where
  "categoryMatch category [] = False"
| "categoryMatch category (cat # rest) = (if cat = category then True else categoryMatch category rest)"

fun categoryLoop :: "string \<Rightarrow> product list \<Rightarrow> product list \<Rightarrow> product list" where
  "categoryLoop category [] filteredProducts = filteredProducts"
| "categoryLoop category (p # rest) filteredProducts =
     categoryLoop category rest
       (if categoryMatch category (product_categories p) then filteredProducts @ [p]
        else filteredProducts)"

definition filterByCategory :: "string \<Rightarrow> product list \<Rightarrow> product list" where
  "filterByCategory category ps =
     (if category \<noteq> '''' then categoryLoop category ps [] else ps)"

record paginated_response =
  resp_items :: "string list"
  resp_totalCount :: go_int
  resp_pageSize :: go_int
  resp_currentPage :: go_int
  resp_totalPages :: go_int
  resp_hasNextPage :: bool
  resp_hasPreviousPage :: bool
  resp_success :: bool
  resp_message :: string

text \<open>The projection of a product to a string (lines 514-520).\<close>

definition itemString :: "product \<Rightarrow> string" where
  "itemString p =
     product_name p @ '' - '' @ product_description p @ '' ($'' @ fmt_2f (product_price p) @ '')''"

text \<open>
  The items of the page (lines 502-510): nothing when \<open>offset\<close> is not below the total,
  else the slice from \<open>offset\<close> to \<open>offset + pageSize\<close>, lowered to the total.
\<close>

definition pageItemsOf :: "'a list \<Rightarrow> go_int \<Rightarrow> go_int \<Rightarrow> panic + 'a list" where
  "pageItemsOf filteredProducts offset pageSize =
     (let total = go_len filteredProducts in
      if sint offset < sint total
      then (let end' = offset + pageSize;
                end' = (if sint total < sint end' then total else end')
            in slice filteredProducts offset end')
      else Inr [])"

text \<open>
  The page computation and the response (lines 497-532), on the filtered products. The
  division comes first, then the slice; either may panic.
\<close>

definition paginate :: "product list \<Rightarrow> go_int \<Rightarrow> go_int \<Rightarrow> panic + paginated_response" where
  "paginate filteredProducts page pageSize =
     (let total = go_len filteredProducts in
      case go_quot (total + pageSize - 1) pageSize of
        Inl e \<Rightarrow> Inl e
      | Inr totalPages \<Rightarrow>
          (case pageItemsOf filteredProducts ((page - 1) * pageSize) pageSize of
             Inl e \<Rightarrow> Inl e
           | Inr pageItems \<Rightarrow>
               Inr \<lparr>resp_items = map itemString pageItems,
                    resp_totalCount = total,
                    resp_pageSize = pageSize,
                    resp_currentPage = page,
                    resp_totalPages = totalPages,
                    resp_hasNextPage = (sint page < sint totalPages),
                    resp_hasPreviousPage = (1 < sint page),
                    resp_success = True,
                    resp_message = ''Retrieved '' @ fmt_d (int (length pageItems)) @ '' products''\<rparr>))"

definition getProductsPaginatedResolver ::
  "go_int \<Rightarrow> go_int \<Rightarrow> string \<Rightarrow> panic + paginated_response" where
  "getProductsPaginatedResolver page pageSize category =
     paginate (filterByCategory category allProducts) page pageSize"

section \<open>createUserResolver\<close>

record validation_error =
  err_code :: string
  err_message :: string
  err_field :: string
  err_details :: "string list"

record mutation_envelope =
  env_success :: bool
  env_message :: string
  env_data :: "user option"
  env_errors :: "validation_error list option"

text \<open>
  createUserResolver (lines 539-589) on the three strings read from the input object.
  \<open>nowUnix\<close> is the value of \<open>time.Now().Unix()\<close> and \<open>nowRFC3339\<close> the value of
  \<open>time.Now().Format(time.RFC3339)\<close> during the call.
\<close>

definition createUserResolver ::
  "go_int \<Rightarrow> string \<Rightarrow> string \<Rightarrow> string \<Rightarrow> string \<Rightarrow> mutation_envelope" where
  "createUserResolver nowUnix nowRFC3339 name email username =
     (if name = '''' \<or> email = '''' \<or> username = '''' then
        \<lparr>env_success = False,
         env_message = ''Name, email, and username are required'',
         env_data = None,
         env_errors = Some [\<lparr>err_code = ''VALIDATION_ERROR'',
                             err_message = ''Missing required fields'',
                             err_field = ''name,email,username'',
                             err_details = [''All fields are required for user creation'']\<rparr>]\<rparr>
      else
        \<lparr>env_success = True,
         env_message = ''User created successfully'',
         env_data = Some \<lparr>user_id = ''user_'' @ fmt_d (sint nowUnix),
                          user_name = name,
                          user_email = email,
                          user_username = username,
                          user_address = None,
                          user_tags = None,
                          user_active = True,
                          user_createdAt = nowRFC3339\<rparr>,
         env_errors = None\<rparr>)"

section \<open>The specification's reading of the validation error\<close>

text \<open>
  Following the specification's words, not the source: the field of the validation error
  is "the comma-joined list of exactly the field names that were missing". These two
  definitions state that reading, to be compared with what createUserResolver returns.
\<close>

definition spec_missingFields :: "string \<Rightarrow> string \<Rightarrow> string \<Rightarrow> string list" where
  "spec_missingFields name email username =
     (if name = '''' then [''name''] else []) @
     (if email = '''' then [''email''] else []) @
     (if username = '''' then [''username''] else [])"

fun spec_commaJoin :: "string list \<Rightarrow> string" where
  "spec_commaJoin [] = ''''"
| "spec_commaJoin [x] = x"
| "spec_commaJoin (x # y # rest) = x @ '','' @ spec_commaJoin (y # rest)"

section \<open>The filters\<close>

lemma activeLoop_filter:
  "activeLoop af us acc = acc @ filter (\<lambda>u. user_active u = af) us"
  by (induction us arbitrary: acc) simp_all

text \<open>
  C7. The active filter of getUsers is stable: on every collection and for either value
  of the argument, its result is the sub-list of the users whose \<open>active\<close> field equals
  the argument, in the order of the collection, and it is no longer than the collection.
\<close>

theorem filterActive_stable:
  "filterActive activeFilter C = filter (\<lambda>u. user_active u = activeFilter) C \<and>
   subseq (filterActive activeFilter C) C \<and>
   length (filterActive activeFilter C) \<le> length C"
  by (simp add: filterActive_def activeLoop_filter)

text \<open>On the sample users with \<open>active = true\<close>: the first and the third, in that order.\<close>

theorem filterActive_stable_witness:
  "filterActive True (users (\<lambda>h. ''t'')) = [users (\<lambda>h. ''t'') ! 0, users (\<lambda>h. ''t'') ! 2] \<and>
   subseq (filterActive True (users (\<lambda>h. ''t''))) (users (\<lambda>h. ''t'')) \<and>
   length (filterActive True (users (\<lambda>h. ''t''))) = 2"
  using filterActive_stable [of True "users (\<lambda>h. ''t'')"]
  by (simp add: users_def)

lemma categoryMatch_iff: "categoryMatch category cats \<longleftrightarrow> category \<in> set cats"
  by (induction cats) auto

lemma categoryLoop_filter:
  "categoryLoop category ps acc = acc @ filter (\<lambda>p. category \<in> set (product_categories p)) ps"
  by (induction ps arbitrary: acc) (simp_all add: categoryMatch_iff)

text \<open>
  C6. The category filter of getProductsPaginated keeps, in their order, exactly the
  products whose categories contain the argument; on the empty string it returns the
  products unchanged.
\<close>

theorem filterByCategory_membership:
  "filterByCategory category ps =
     (if category = '''' then ps
      else filter (\<lambda>p. category \<in> set (product_categories p)) ps)"
  by (simp add: filterByCategory_def categoryLoop_filter)

text \<open>On the sample products: \<open>electronics\<close> keeps the first product only.\<close>

theorem filterByCategory_membership_witness:
  "filterByCategory ''electronics'' allProducts = [allProducts ! 0] \<and>
   filterByCategory '''' allProducts = allProducts"
  using filterByCategory_membership [of "''electronics''" allProducts]
    filterByCategory_membership [of "''''" allProducts]
  by (simp add: allProducts_def)

section \<open>The envelope of createUser\<close>

text \<open>
  C5. Every envelope returned by createUser satisfies the invariant of the mutation
  envelope: without success the data is null and the errors are not; with success the
  errors are null and the data is not.
\<close>

theorem createUser_envelope_invariant:
  "(\<not> env_success (createUserResolver nowUnix nowRFC3339 name email username) \<longrightarrow>
      env_data (createUserResolver nowUnix nowRFC3339 name email username) = None \<and>
      env_errors (createUserResolver nowUnix nowRFC3339 name email username) \<noteq> None) \<and>
   (env_success (createUserResolver nowUnix nowRFC3339 name email username) \<longrightarrow>
      env_errors (createUserResolver nowUnix nowRFC3339 name email username) = None \<and>
      env_data (createUserResolver nowUnix nowRFC3339 name email username) \<noteq> None)"
  by (simp add: createUserResolver_def)

text \<open>Both branches: a call with an empty name, and a call with the three fields given.\<close>

theorem createUser_envelope_invariant_witness:
  "\<not> env_success (createUserResolver 1700000000 ''2023-11-14T22:13:20Z'' '''' ''a@b.com'' ''bob'') \<and>
   env_data (createUserResolver 1700000000 ''2023-11-14T22:13:20Z'' '''' ''a@b.com'' ''bob'') = None \<and>
   env_errors (createUserResolver 1700000000 ''2023-11-14T22:13:20Z'' '''' ''a@b.com'' ''bob'') \<noteq> None \<and>
   env_success (createUserResolver 1700000000 ''2023-11-14T22:13:20Z'' ''Bob'' ''a@b.com'' ''bob'') \<and>
   env_errors (createUserResolver 1700000000 ''2023-11-14T22:13:20Z'' ''Bob'' ''a@b.com'' ''bob'') = None \<and>
   env_data (createUserResolver 1700000000 ''2023-11-14T22:13:20Z'' ''Bob'' ''a@b.com'' ''bob'') \<noteq> None"
proof -
  have f: "\<not> env_success (createUserResolver 1700000000 ''2023-11-14T22:13:20Z'' '''' ''a@b.com'' ''bob'')"
    by (simp add: createUserResolver_def)
  have s: "env_success (createUserResolver 1700000000 ''2023-11-14T22:13:20Z'' ''Bob'' ''a@b.com'' ''bob'')"
    by (simp add: createUserResolver_def)
  from f s
    createUser_envelope_invariant [of 1700000000 "''2023-11-14T22:13:20Z''" "''''" "''a@b.com''" "''bob''"]
    createUser_envelope_invariant [of 1700000000 "''2023-11-14T22:13:20Z''" "''Bob''" "''a@b.com''" "''bob''"]
  show ?thesis by blast
qed

text \<open>
  C10. The validation of createUser rejects the empty string and nothing else: the call
  succeeds exactly when name, email and username are all non-empty, and then the data
  record carries the three strings as given and is active.
\<close>

theorem createUser_rejects_only_empty:
  "env_success (createUserResolver nowUnix nowRFC3339 name email username) =
     (name \<noteq> '''' \<and> email \<noteq> '''' \<and> username \<noteq> '''') \<and>
   (name \<noteq> '''' \<and> email \<noteq> '''' \<and> username \<noteq> '''' \<longrightarrow>
      (\<exists>u. env_data (createUserResolver nowUnix nowRFC3339 name email username) = Some u \<and>
           user_name u = name \<and> user_email u = email \<and> user_username u = username \<and>
           user_active u = True))"
  by (simp add: createUserResolver_def)

text \<open>A name of one space, an email that is no address and a username of two spaces.\<close>

theorem createUser_rejects_only_empty_witness:
  "env_success (createUserResolver 1700000000 ''2023-11-14T22:13:20Z'' '' '' ''not an email'' ''  '') \<and>
   (\<exists>u. env_data (createUserResolver 1700000000 ''2023-11-14T22:13:20Z'' '' '' ''not an email'' ''  '') = Some u \<and>
        user_name u = '' '' \<and> user_email u = ''not an email'' \<and> user_username u = ''  '' \<and>
        user_active u = True)"
  using createUser_rejects_only_empty [of 1700000000 "''2023-11-14T22:13:20Z''" "'' ''" "''not an email''" "''  ''"]
  by simp

text \<open>
  C4, as stated, fails: with only the name missing the field of the validation error is
  \<open>name,email,username\<close>, while the comma-joined list of the missing names is \<open>name\<close>.
\<close>

theorem createUser_field_counterexample:
  "env_errors (createUserResolver 1700000000 ''2023-11-14T22:13:20Z'' '''' ''a@b.com'' ''bob'') =
     Some [\<lparr>err_code = ''VALIDATION_ERROR'', err_message = ''Missing required fields'',
            err_field = ''name,email,username'',
            err_details = [''All fields are required for user creation'']\<rparr>] \<and>
   spec_commaJoin (spec_missingFields '''' ''a@b.com'' ''bob'') = ''name'' \<and>
   ''name,email,username'' \<noteq> spec_commaJoin (spec_missingFields '''' ''a@b.com'' ''bob'')"
  by (simp add: createUserResolver_def spec_missingFields_def)

text \<open>
  C4, amended. Whenever at least one of name, email and username is empty, createUser
  returns success=false with data=null and exactly one validation error, whose code is
  \<open>VALIDATION_ERROR\<close>, whose message is \<open>Missing required fields\<close> and whose field is the
  fixed string \<open>name,email,username\<close>, whichever of the three were missing.
\<close>

theorem createUser_validation_error:
  assumes "name = '''' \<or> email = '''' \<or> username = ''''"
  shows "env_success (createUserResolver nowUnix nowRFC3339 name email username) = False \<and>
         env_data (createUserResolver nowUnix nowRFC3339 name email username) = None \<and>
         (\<exists>e. env_errors (createUserResolver nowUnix nowRFC3339 name email username) = Some [e] \<and>
              err_code e = ''VALIDATION_ERROR'' \<and>
              err_message e = ''Missing required fields'' \<and>
              err_field e = ''name,email,username'')"
  using assms by (auto simp add: createUserResolver_def)

text \<open>Scenario 5 of the specification: an empty name with email and username given.\<close>

theorem createUser_validation_error_witness:
  "env_success (createUserResolver 1700000000 ''2023-11-14T22:13:20Z'' '''' ''a@b.com'' ''bob'') = False \<and>
   env_data (createUserResolver 1700000000 ''2023-11-14T22:13:20Z'' '''' ''a@b.com'' ''bob'') = None \<and>
   (\<exists>e. env_errors (createUserResolver 1700000000 ''2023-11-14T22:13:20Z'' '''' ''a@b.com'' ''bob'') = Some [e] \<and>
        err_code e = ''VALIDATION_ERROR'' \<and>
        err_message e = ''Missing required fields'' \<and>
        err_field e = ''name,email,username'')"
proof -
  have h: "('''' :: string) = '''' \<or> ''a@b.com'' = '''' \<or> ''bob'' = ''''" by simp
  show ?thesis
    by (rule createUser_validation_error [OF h])
qed

section \<open>The identifier of a created user\<close>

lemma digit_char_inj: "a < 10 \<Longrightarrow> b < 10 \<Longrightarrow> digit_char a = digit_char b \<Longrightarrow> a = b"
proof -
  assume a: "a < 10" and b: "b < 10" and e: "digit_char a = digit_char b"
  from e have "of_char (char_of (48 + a) :: char) = (of_char (char_of (48 + b) :: char) :: nat)"
    by (simp add: digit_char_def)
  with a b show "a = b" by simp
qed

lemma digit_char_not_minus: "d < 10 \<Longrightarrow> digit_char d \<noteq> CHR ''-''"
proof
  assume d: "d < 10" and e: "digit_char d = CHR ''-''"
  from e have "(of_char (char_of (48 + d) :: char) :: nat) = of_char (CHR ''-'')"
    by (simp add: digit_char_def)
  with d show False by simp
qed

lemma digit_char_values:
  "digit_char 0 = CHR ''0''" "digit_char (Suc 0) = CHR ''1''" "digit_char 2 = CHR ''2''"
  "digit_char 3 = CHR ''3''" "digit_char 4 = CHR ''4''" "digit_char 5 = CHR ''5''"
  "digit_char 6 = CHR ''6''" "digit_char 7 = CHR ''7''" "digit_char 8 = CHR ''8''"
  "digit_char 9 = CHR ''9''"
  by code_simp+

lemma fmt_nat_nonempty: "fmt_nat n \<noteq> []"
  by (subst fmt_nat.simps) simp

lemma fmt_nat_no_minus: "CHR ''-'' \<notin> set (fmt_nat n)"
proof (induction n rule: fmt_nat.induct)
  case (1 n)
  show ?case
  proof (cases "n < 10")
    case True
    then show ?thesis
      using digit_char_not_minus [of n] by (subst fmt_nat.simps) auto
  next
    case False
    have "n mod 10 < 10" by simp
    then have "digit_char (n mod 10) \<noteq> CHR ''-''" by (rule digit_char_not_minus)
    with False "1.IH" show ?thesis
      by (subst fmt_nat.simps) auto
  qed
qed

lemma fmt_nat_inj: "fmt_nat m = fmt_nat n \<Longrightarrow> m = n"
proof (induction m arbitrary: n rule: fmt_nat.induct)
  case (1 m)
  note eq = \<open>fmt_nat m = fmt_nat n\<close>
  show ?case
  proof (cases "m < 10")
    case m: True
    show ?thesis
    proof (cases "n < 10")
      case True
      with m eq have "digit_char m = digit_char n"
        by (simp add: fmt_nat.simps [of m] fmt_nat.simps [of n])
      with m True show ?thesis by (rule digit_char_inj)
    next
      case False
      with m eq have "[digit_char m] = fmt_nat (n div 10) @ [digit_char (n mod 10)]"
        by (simp add: fmt_nat.simps [of m] fmt_nat.simps [of n])
      then have "fmt_nat (n div 10) = []" by simp
      then show ?thesis by (simp add: fmt_nat_nonempty)
    qed
  next
    case m: False
    show ?thesis
    proof (cases "n < 10")
      case True
      with m eq have "fmt_nat (m div 10) @ [digit_char (m mod 10)] = [digit_char n]"
        by (simp add: fmt_nat.simps [of m] fmt_nat.simps [of n])
      then have "fmt_nat (m div 10) = []" by simp
      then show ?thesis by (simp add: fmt_nat_nonempty)
    next
      case False
      with m eq have "fmt_nat (m div 10) @ [digit_char (m mod 10)] =
          fmt_nat (n div 10) @ [digit_char (n mod 10)]"
        by (simp add: fmt_nat.simps [of m] fmt_nat.simps [of n])
      then have p: "fmt_nat (m div 10) = fmt_nat (n div 10)"
        and d: "digit_char (m mod 10) = digit_char (n mod 10)" by simp_all
      from m p have q: "m div 10 = n div 10" by (rule "1.IH")
      have "m mod 10 = n mod 10"
        by (rule digit_char_inj [OF _ _ d]) simp_all
      with q show ?thesis by (metis div_mult_mod_eq)
    qed
  qed
qed

lemma fmt_d_inj: "fmt_d i = fmt_d j \<Longrightarrow> i = j"
proof -
  assume eq: "fmt_d i = fmt_d j"
  have neg_pos: "CHR ''-'' # fmt_nat a \<noteq> fmt_nat b" for a b
  proof
    assume "CHR ''-'' # fmt_nat a = fmt_nat b"
    then have "CHR ''-'' \<in> set (fmt_nat b)" by (metis list.set_intros(1))
    then show False by (simp add: fmt_nat_no_minus)
  qed
  show "i = j"
  proof (cases "i < 0")
    case i: True
    show ?thesis
    proof (cases "j < 0")
      case True
      with i eq have "fmt_nat (nat (- i)) = fmt_nat (nat (- j))" by (simp add: fmt_d_def)
      then have "nat (- i) = nat (- j)" by (rule fmt_nat_inj)
      with i True show ?thesis by simp
    next
      case False
      with i eq have "CHR ''-'' # fmt_nat (nat (- i)) = fmt_nat (nat j)" by (simp add: fmt_d_def)
      with neg_pos show ?thesis by blast
    qed
  next
    case i: False
    show ?thesis
    proof (cases "j < 0")
      case True
      with i eq have "CHR ''-'' # fmt_nat (nat (- j)) = fmt_nat (nat i)" by (simp add: fmt_d_def)
      with neg_pos show ?thesis by blast
    next
      case False
      with i eq have "fmt_nat (nat i) = fmt_nat (nat j)" by (simp add: fmt_d_def)
      then have "nat i = nat j" by (rule fmt_nat_inj)
      with i False show ?thesis by simp
    qed
  qed
qed

lemma fmt_d_nonempty: "fmt_d i \<noteq> []"
  by (simp add: fmt_d_def fmt_nat_nonempty)

text \<open>
  C8, as stated, fails on the uniqueness: two successful calls that read the same Unix
  second from the clock produce the same id.
\<close>

theorem createUser_id_counterexample:
  "env_data (createUserResolver 1700000000 ''2023-11-14T22:13:20Z'' ''Ann'' ''ann@example.com'' ''ann'') =
     Some \<lparr>user_id = ''user_1700000000'', user_name = ''Ann'', user_email = ''ann@example.com'',
           user_username = ''ann'', user_address = None, user_tags = None, user_active = True,
           user_createdAt = ''2023-11-14T22:13:20Z''\<rparr> \<and>
   env_data (createUserResolver 1700000000 ''2023-11-14T22:13:20Z'' ''Bob'' ''bob@example.com'' ''bob'') =
     Some \<lparr>user_id = ''user_1700000000'', user_name = ''Bob'', user_email = ''bob@example.com'',
           user_username = ''bob'', user_address = None, user_tags = None, user_active = True,
           user_createdAt = ''2023-11-14T22:13:20Z''\<rparr>"
  by (simp add: createUserResolver_def fmt_d_def fmt_nat.simps digit_char_values)

text \<open>
  C8, amended. Whenever createUser is invoked with all three required fields non-empty,
  it returns success=true and a data record whose id is the non-empty string \<open>user_\<close>
  followed by the decimal Unix second read from the clock; the ids of two successful
  calls are distinct exactly when the two calls read different Unix seconds.
\<close>

theorem createUser_id_by_second:
  assumes "name \<noteq> ''''" and "email \<noteq> ''''" and "username \<noteq> ''''"
    and "name' \<noteq> ''''" and "email' \<noteq> ''''" and "username' \<noteq> ''''"
  shows "env_success (createUserResolver t c name email username) \<and>
         (\<exists>u u'. env_data (createUserResolver t c name email username) = Some u \<and>
                 env_data (createUserResolver t' c' name' email' username') = Some u' \<and>
                 user_id u = ''user_'' @ fmt_d (sint t) \<and>
                 user_id u \<noteq> '''' \<and>
                 (user_id u = user_id u') = (t = t'))"
proof -
  have "(fmt_d (sint t) = fmt_d (sint t')) = (t = t')"
    using fmt_d_inj [of "sint t" "sint t'"] by (auto simp add: signed_word_eqI)
  with assms show ?thesis
    by (simp add: createUserResolver_def)
qed

text \<open>Two calls one second apart: the ids differ.\<close>

theorem createUser_id_by_second_witness:
  "env_success (createUserResolver 1700000000 ''2023-11-14T22:13:20Z'' ''Ann'' ''ann@example.com'' ''ann'') \<and>
   (\<exists>u u'. env_data (createUserResolver 1700000000 ''2023-11-14T22:13:20Z'' ''Ann'' ''ann@example.com'' ''ann'') = Some u \<and>
           env_data (createUserResolver 1700000001 ''2023-11-14T22:13:21Z'' ''Bob'' ''bob@example.com'' ''bob'') = Some u' \<and>
           user_id u = ''user_1700000000'' \<and>
           user_id u \<noteq> '''' \<and>
           user_id u \<noteq> user_id u')"
proof -
  have h: "''Ann'' \<noteq> ''''" "''ann@example.com'' \<noteq> ''''" "''ann'' \<noteq> ''''"
    "''Bob'' \<noteq> ''''" "''bob@example.com'' \<noteq> ''''" "''bob'' \<noteq> ''''"
    by simp_all
  have f: "fmt_d 1700000000 = ''1700000000''"
    by (simp add: fmt_d_def fmt_nat.simps digit_char_values)
  from createUser_id_by_second [OF h, of 1700000000 "''2023-11-14T22:13:20Z''" 1700000001 "''2023-11-14T22:13:21Z''"]
  show ?thesis by (simp add: f)
qed

section \<open>Arithmetic of the page computation\<close>

lemma sint_of_int_64:
  "- (2 ^ 63) \<le> x \<Longrightarrow> x < 2 ^ 63 \<Longrightarrow> sint (word_of_int x :: go_int) = x"
  by (simp add: signed_of_int signed_take_bit_int_eq_self)

lemma sint_go_len: "int (length xs) < 2 ^ 63 \<Longrightarrow> sint (go_len xs) = int (length xs)"
  by (simp add: go_len_def signed_of_nat signed_take_bit_int_eq_self)

lemma sdiv_nonneg: "0 \<le> a \<Longrightarrow> 0 < b \<Longrightarrow> (a::int) sdiv b = a div b"
  by (cases "a = 0") (simp_all add: signed_divide_int_def)

lemma ceiling_quotient:
  fixes n d :: int
  assumes d: "0 < d"
  shows "\<lceil>real_of_int n / real_of_int d\<rceil> = (n + d - 1) div d"
proof -
  define q where "q = (n + d - 1) div d"
  define r where "r = (n + d - 1) mod d"
  have split: "n + d - 1 = q * d + r"
    by (simp add: q_def r_def)
  have r: "0 \<le> r" "r < d"
    using d by (simp_all add: r_def)
  have upper: "n \<le> q * d"
    using split r by linarith
  have "(q - 1) * d = q * d - d"
    by (simp add: left_diff_distrib)
  with split r have lower: "(q - 1) * d < n"
    by linarith
  from upper have "real_of_int n \<le> real_of_int (q * d)"
    by (simp only: of_int_le_iff)
  then have u: "real_of_int n / real_of_int d \<le> real_of_int q"
    using d by (simp add: pos_divide_le_eq)
  from lower have "real_of_int ((q - 1) * d) < real_of_int n"
    by (simp only: of_int_less_iff)
  then have l: "real_of_int q - 1 < real_of_int n / real_of_int d"
    using d by (simp add: pos_less_divide_eq)
  from l u have "\<lceil>real_of_int n / real_of_int d\<rceil> = q"
    by (rule ceiling_unique)
  then show ?thesis by (simp add: q_def)
qed

lemma int_div_le_nonneg: "0 \<le> x \<Longrightarrow> x div k \<le> (x::int)"
  by (cases "x = 0") (simp_all add: int_div_le_self)

lemma totalPages_value:
  assumes ps: "0 < sint pageSize"
    and sum: "int (length xs) + sint pageSize - 1 < 2 ^ 63"
  shows "\<exists>tp. go_quot (go_len xs + pageSize - 1) pageSize = Inr tp \<and>
              sint tp = (int (length xs) + sint pageSize - 1) div sint pageSize"
proof -
  let ?n = "int (length xs)" and ?d = "sint pageSize"
  have nz: "pageSize \<noteq> 0"
    using ps by auto
  have "go_len xs + pageSize - 1 = word_of_int (?n + ?d - 1)"
    by (simp add: go_len_def)
  moreover have "0 \<le> ?n + ?d - 1"
    using ps by simp
  ultimately have num: "sint (go_len xs + pageSize - 1) = ?n + ?d - 1"
    using sum by (simp only: sint_of_int_64)
  have q0: "0 \<le> (?n + ?d - 1) div ?d"
    using ps \<open>0 \<le> ?n + ?d - 1\<close> by (simp add: pos_imp_zdiv_nonneg_iff)
  have "(?n + ?d - 1) div ?d \<le> ?n + ?d - 1"
    using \<open>0 \<le> ?n + ?d - 1\<close> by (rule int_div_le_nonneg)
  with sum have q1: "(?n + ?d - 1) div ?d < 2 ^ 63"
    by linarith
  have "sint (word_of_int ((?n + ?d - 1) div ?d) :: go_int) = (?n + ?d - 1) div ?d"
    using q0 q1 by (simp only: sint_of_int_64)
  with nz num ps \<open>0 \<le> ?n + ?d - 1\<close> show ?thesis
    by (simp add: go_quot_def sdiv_nonneg)
qed

lemma pageItemsOf_returns:
  assumes ps: "0 < sint pageSize"
    and sum: "int (length xs) + sint pageSize - 1 < 2 ^ 63"
    and off: "0 \<le> sint offset"
  shows "pageItemsOf xs offset pageSize =
           Inr (take (nat (sint pageSize)) (drop (nat (sint offset)) xs))"
proof -
  from ps sum have "int (length xs) < 2 ^ 63" by linarith
  then have len: "sint (go_len xs) = int (length xs)" by (rule sint_go_len)
  show ?thesis
  proof (cases "sint offset < int (length xs)")
    case True
    have "offset + pageSize = word_of_int (sint offset + sint pageSize)" by simp
    moreover have "0 \<le> sint offset + sint pageSize"
      using ps off by linarith
    moreover have "sint offset + sint pageSize < 2 ^ 63"
      using True sum by linarith
    ultimately have e: "sint (offset + pageSize) = sint offset + sint pageSize"
      by (simp only: sint_of_int_64)
    show ?thesis
    proof (cases "int (length xs) < sint offset + sint pageSize")
      case beyond: True
      with True off ps have "length xs - nat (sint offset) \<le> nat (sint pageSize)" by linarith
      with True beyond off len e show ?thesis
        by (simp add: pageItemsOf_def slice_def)
    next
      case False
      from off ps have "nat (sint offset + sint pageSize) - nat (sint offset) = nat (sint pageSize)"
        by linarith
      with True False off ps len e show ?thesis
        by (simp add: pageItemsOf_def slice_def)
    qed
  next
    case False
    with off have "length xs \<le> nat (sint offset)" by linarith
    with False len show ?thesis
      by (simp add: pageItemsOf_def)
  qed
qed

lemma sint_offset:
  assumes "1 \<le> sint page" and "0 < sint pageSize"
    and "(sint page - 1) * sint pageSize < 2 ^ 63"
  shows "sint ((page - 1) * pageSize :: go_int) = (sint page - 1) * sint pageSize"
proof -
  have "(page - 1) * pageSize = word_of_int ((sint page - 1) * sint pageSize)" by simp
  moreover have "0 \<le> (sint page - 1) * sint pageSize"
    using assms(1,2) by simp
  ultimately show ?thesis
    using assms(3) by (simp only: sint_of_int_64)
qed

section \<open>The page metadata\<close>

text \<open>
  C2, as stated, fails at the far end of the integers. With three products, page = 1 and
  pageSize = 9223372036854775807 the sum \<open>total + pageSize - 1\<close> wraps around and the
  response carries totalPages = -1, where the ceiling of 3 / pageSize is 1. With page =
  4611686018427387905 and pageSize = 2 the product \<open>(page - 1) * pageSize\<close> wraps around
  to a negative offset and the slice expression panics, so there is no response.
\<close>

theorem paginate_metadata_counterexample:
  "getProductsPaginatedResolver 1 9223372036854775807 '''' =
     Inr \<lparr>resp_items = [''Laptop - High-performance laptop ($999.99)'',
                         ''Coffee Mug - Ceramic coffee mug ($12.99)'',
                         ''Book - Programming book ($29.99)''],
          resp_totalCount = 3, resp_pageSize = 9223372036854775807, resp_currentPage = 1,
          resp_totalPages = - 1, resp_hasNextPage = False, resp_hasPreviousPage = False,
          resp_success = True, resp_message = ''Retrieved 3 products''\<rparr> \<and>
   sint (- 1 :: go_int) = - 1 \<and>
   \<lceil>(3::real) / 9223372036854775807\<rceil> = (1::int) \<and>
   getProductsPaginatedResolver 4611686018427387905 2 '''' = Inl SliceBoundsOutOfRange"
  by (simp add: getProductsPaginatedResolver_def paginate_def pageItemsOf_def go_quot_def
      filterByCategory_def allProducts_def go_len_def slice_def itemString_def fmt_2f_def
      fmt_d_def fmt_nat.simps digit_char_values signed_divide_int_def)

text \<open>
  C2, amended. For every filtered collection of size N, every pageSize > 0 and every
  page \<ge> 1 such that N + pageSize - 1 and (page - 1) * pageSize do not exceed the largest
  64-bit integer, the pagination returns a response, and in it totalPages is the ceiling
  of N / pageSize, hasNextPage is page < totalPages and hasPreviousPage is page > 1.
\<close>

theorem paginate_metadata:
  assumes ps: "0 < sint pageSize" and pg: "1 \<le> sint page"
    and sum: "int (length xs) + sint pageSize - 1 < 2 ^ 63"
    and prod: "(sint page - 1) * sint pageSize < 2 ^ 63"
  shows "\<exists>r. paginate xs page pageSize = Inr r \<and>
             sint (resp_totalPages r) = \<lceil>real (length xs) / real_of_int (sint pageSize)\<rceil> \<and>
             resp_hasNextPage r = (sint page < \<lceil>real (length xs) / real_of_int (sint pageSize)\<rceil>) \<and>
             resp_hasPreviousPage r = (1 < sint page)"
proof -
  from totalPages_value [OF ps sum] obtain tp where
    q: "go_quot (go_len xs + pageSize - 1) pageSize = Inr tp" and
    tp: "sint tp = (int (length xs) + sint pageSize - 1) div sint pageSize"
    by blast
  have "\<lceil>real_of_int (int (length xs)) / real_of_int (sint pageSize)\<rceil> =
          (int (length xs) + sint pageSize - 1) div sint pageSize"
    using ps by (rule ceiling_quotient)
  with tp have c: "sint tp = \<lceil>real (length xs) / real_of_int (sint pageSize)\<rceil>"
    by simp
  have "0 \<le> sint ((page - 1) * pageSize)"
    using pg ps prod by (simp add: sint_offset)
  with ps sum have items: "pageItemsOf xs ((page - 1) * pageSize) pageSize =
      Inr (take (nat (sint pageSize)) (drop (nat (sint ((page - 1) * pageSize))) xs))"
    by (rule pageItemsOf_returns)
  show ?thesis
    by (simp add: paginate_def q items c)
qed

text \<open>Three products, page 2 of size 2: two pages, no next page, a previous page.\<close>

theorem paginate_metadata_witness:
  "\<exists>r. paginate allProducts 2 2 = Inr r \<and> sint (resp_totalPages r) = 2 \<and>
       resp_hasNextPage r = False \<and> resp_hasPreviousPage r = True"
  using paginate_metadata [of 2 2 allProducts]
  by (simp add: allProducts_def)

text \<open>
  C9. Every envelope returned by getProductsPaginated, whatever the page, the pageSize
  and the category, carries success=true and a non-empty message that reports the number
  of items of the page: \<open>Retrieved n products\<close>, with n the length of the items.
\<close>

theorem getProductsPaginated_success_message:
  assumes "getProductsPaginatedResolver page pageSize category = Inr r"
  shows "resp_success r \<and> resp_message r \<noteq> '''' \<and>
         resp_message r = ''Retrieved '' @ fmt_d (int (length (resp_items r))) @ '' products''"
  using assms
  by (auto simp add: getProductsPaginatedResolver_def paginate_def Let_def split: sum.splits)

text \<open>Page 5 of size 2 of the three products is empty: the message reports 0 items.\<close>

theorem getProductsPaginated_success_message_witness:
  "getProductsPaginatedResolver 5 2 '''' =
     Inr \<lparr>resp_items = [], resp_totalCount = 3, resp_pageSize = 2, resp_currentPage = 5,
          resp_totalPages = 2, resp_hasNextPage = False, resp_hasPreviousPage = True,
          resp_success = True, resp_message = ''Retrieved 0 products''\<rparr>"
proof -
  have h: "getProductsPaginatedResolver 5 2 '''' =
     Inr \<lparr>resp_items = [], resp_totalCount = 3, resp_pageSize = 2, resp_currentPage = 5,
          resp_totalPages = 2, resp_hasNextPage = False, resp_hasPreviousPage = True,
          resp_success = True, resp_message = ''Retrieved '' @ fmt_d 0 @ '' products''\<rparr>"
    by (simp add: getProductsPaginatedResolver_def paginate_def pageItemsOf_def go_quot_def
        filterByCategory_def allProducts_def go_len_def slice_def signed_divide_int_def)
  from getProductsPaginated_success_message [OF h]
  have "''Retrieved '' @ fmt_d 0 @ '' products'' = ''Retrieved '' @ fmt_d (int (length ([] :: string list))) @ '' products''"
    by simp
  moreover have "fmt_d 0 = ''0''"
    by (simp add: fmt_d_def fmt_nat.simps digit_char_values)
  ultimately show ?thesis
    using h by simp
qed

section \<open>Panics of the two paginations\<close>

text \<open>
  C1. The claim is that a pageSize of zero or less is raised to 1 before the page is
  computed, so that getProductsPaginated returns normally. The resolver uses pageSize as
  given: on pageSize = 0 the division for totalPages panics, and on pageSize = -1 with
  page = 1 the slice expression \<open>filteredProducts[0:-1]\<close> panics.
\<close>

theorem getProductsPaginated_nonpositive_pageSize_panics:
  "getProductsPaginatedResolver 1 0 '''' = Inl DivideByZero \<and>
   getProductsPaginatedResolver 1 (- 1) '''' = Inl SliceBoundsOutOfRange"
  by (simp add: getProductsPaginatedResolver_def paginate_def pageItemsOf_def go_quot_def
      filterByCategory_def allProducts_def go_len_def slice_def)

text \<open>
  The offset/limit window on arguments that are not negative and whose sum does not wrap
  around: the slice is the \<open>limit\<close> items after the first \<open>offset\<close> ones, as far as
  the collection reaches.
\<close>

lemma offsetLimit_in_range:
  assumes off: "0 \<le> sint offset" and lim: "0 \<le> sint limit"
    and sum: "sint offset + sint limit < 2 ^ 63"
    and n: "int (length xs) < 2 ^ 63"
  shows "offsetLimit xs offset limit =
           Inr (take (nat (sint limit)) (drop (nat (sint offset)) xs))"
proof -
  from n have len: "sint (go_len xs) = int (length xs)" by (rule sint_go_len)
  have "offset + limit = word_of_int (sint offset + sint limit)" by simp
  moreover have "0 \<le> sint offset + sint limit"
    using off lim by linarith
  ultimately have e: "sint (offset + limit) = sint offset + sint limit"
    using sum by (simp only: sint_of_int_64)
  show ?thesis
  proof (cases "int (length xs) < sint offset")
    case True
    with off have "length xs \<le> nat (sint offset)" by linarith
    with True off lim len e show ?thesis
      by (simp add: offsetLimit_def slice_def)
  next
    case inside: False
    show ?thesis
    proof (cases "int (length xs) < sint offset + sint limit")
      case True
      with off lim have "length xs - nat (sint offset) \<le> nat (sint limit)" by linarith
      with True inside off lim len e show ?thesis
        by (simp add: offsetLimit_def slice_def)
    next
      case False
      from off lim have "nat (sint offset + sint limit) - nat (sint offset) = nat (sint limit)"
        by linarith
      with False inside off lim len e show ?thesis
        by (simp add: offsetLimit_def slice_def)
    qed
  qed
qed

text \<open>
  C3. The claim is that getUsers brings every offset, negative ones too, into the range
  from 0 to N before slicing. The resolver lowers \<open>start\<close> and \<open>end\<close> to N and never
  raises them: with offset = -1 the slice expression is \<open>filteredUsers[-1:2]\<close>, and with
  limit = -1 it is \<open>filteredUsers[0:-1]\<close>; both panic.
\<close>

theorem getUsers_negative_offset_panics:
  "getUsersResolver stamp 10 (- 1) True = Inl SliceBoundsOutOfRange \<and>
   getUsersResolver stamp (- 1) 0 True = Inl SliceBoundsOutOfRange"
  by (simp add: getUsersResolver_def offsetLimit_def filterActive_def users_def go_len_def slice_def)

end
